theory Spec2Isabelle
  imports Complex_Main
begin

section \<open>Numbers, vectors and the game constants\<close>

text \<open>
  The game is an Angular component (\<^verbatim>\<open>AppComponent\<close>) and a service
  (\<^verbatim>\<open>GeminiService\<close>). Every coordinate and velocity of the source is a
  JavaScript number; here it is a mathematical real: the arithmetic of the source is
  kept operation by operation, rounding, NaN and the infinities are outside the model.
  An object \<^verbatim>\<open>{x, y}\<close> is the record \<open>vec\<close>.
\<close>

record vec =
  vx :: real
  vy :: real

definition GRAVITY :: real where
  "GRAVITY = 0.4"

definition BOUNCE_DAMPENING :: real where
  "BOUNCE_DAMPENING = 0.7"

definition AIM_POWER_FACTOR :: real where
  "AIM_POWER_FACTOR = 0.15"

definition MAX_AIM_POWER :: real where
  "MAX_AIM_POWER = 120"

definition BALL_RADIUS :: real where
  "BALL_RADIUS = 20"

definition HOOP_POS :: vec where
  "HOOP_POS = \<lparr>vx = 100, vy = 200\<rparr>"

definition BACKBOARD_height :: real where
  "BACKBOARD_height = 100"

definition RIM_width :: real where
  "RIM_width = 60"

text \<open>\<^verbatim>\<open>window.innerWidth\<close> and \<^verbatim>\<open>window.innerHeight\<close>, read afresh by every handler.\<close>

record viewport =
  innerWidth :: real
  innerHeight :: real

definition RIM_Y_POS :: real where
  "RIM_Y_POS = vy HOOP_POS + BACKBOARD_height / 2"

definition RIM_X_START :: "viewport \<Rightarrow> real" where
  "RIM_X_START w = innerWidth w - vx HOOP_POS - RIM_width"

definition RIM_X_END :: "viewport \<Rightarrow> real" where
  "RIM_X_END w = innerWidth w - vx HOOP_POS"

definition BACKBOARD_X :: "viewport \<Rightarrow> real" where
  "BACKBOARD_X w = innerWidth w - vx HOOP_POS"

text \<open>\<^verbatim>\<open>Math.hypot(a, b)\<close>.\<close>

definition hypot :: "real \<Rightarrow> real \<Rightarrow> real" where
  "hypot a b = sqrt (a * a + b * b)"

section \<open>The component's state\<close>

datatype game_state = Positioning | Ready | Aiming | Shooting | Scored | Missed

datatype js_error = TypeError | Error string

text \<open>
  The signals and private fields of \<^verbatim>\<open>AppComponent\<close>, one field each. Two more
  fields stand for the browser's animation-frame queue, which the component drives
  through \<^verbatim>\<open>requestAnimationFrame\<close> and \<^verbatim>\<open>cancelAnimationFrame\<close>:
  \<open>rafNext\<close> is the last handle the browser issued (handles are positive and
  increase), \<open>rafPending\<close> the handles whose callback is still to run.
  \<open>geminiCalls\<close> logs the arguments of the calls made to the commentary service.
  A confetti piece keeps its \<^verbatim>\<open>id\<close> only: its other fields are random strings.
\<close>

record component =
  gameState :: game_state
  score :: nat
  shots :: nat
  stagedVelocity :: "vec option"
  ballPosition :: vec
  ballVelocity :: vec
  aimStartPos :: "vec option"
  aimCurrentPos :: "vec option"
  geminiMessage :: string
  isLoadingGemini :: bool
  animateScore :: bool
  animateNet :: bool
  confettiPieces :: "nat list"
  animationFrameId :: "nat option"
  wasAboveRim :: bool
  rafNext :: nat
  rafPending :: "nat set"
  geminiCalls :: "bool list"

definition initial :: "viewport \<Rightarrow> component" where
  "initial w =
     \<lparr>gameState = Positioning, score = 0, shots = 0, stagedVelocity = None,
      ballPosition = \<lparr>vx = 150, vy = innerHeight w - 150\<rparr>,
      ballVelocity = \<lparr>vx = 0, vy = 0\<rparr>,
      aimStartPos = None, aimCurrentPos = None,
      geminiMessage = '''', isLoadingGemini = False,
      animateScore = False, animateNet = False, confettiPieces = [],
      animationFrameId = None, wasAboveRim = False,
      rafNext = 0, rafPending = {}, geminiCalls = []\<rparr>"

section \<open>The commentary service and its call site\<close>

text \<open>
  \<^verbatim>\<open>GeminiService\<close>: the constructor leaves the service either configured
  (\<^verbatim>\<open>ai\<close> set, \<^verbatim>\<open>error\<close> null) or not (\<^verbatim>\<open>ai\<close> null, \<^verbatim>\<open>error\<close> set to
  the message below). The outcome of \<^verbatim>\<open>ai.models.generateContent\<close> is a parameter:
  \<open>Inr text\<close> when it answers, \<open>Inl e\<close> when it rejects.
\<close>

record gemini_service =
  apiKeyConfigured :: bool

definition getShotReaction ::
  "gemini_service \<Rightarrow> bool \<Rightarrow> js_error + string \<Rightarrow> js_error + string" where
  "getShotReaction svc didScore response =
     (if \<not> apiKeyConfigured svc
      then Inr ''API key not configured. Please set the API_KEY environment variable.''
      else (case response of
              Inr text \<Rightarrow> Inr text
            | Inl e \<Rightarrow> Inl (Error ''Failed to get a reaction from Gemini.'')))"

text \<open>
  \<^verbatim>\<open>fetchGeminiReaction\<close> is an async function. Its part before the
  \<^verbatim>\<open>await\<close> runs inside the caller; its part after the \<^verbatim>\<open>await\<close> (the rest of
  the try, the catch and the finally) runs when the service call settles, on whatever
  state the component has by then. The value returned is what the function's own promise
  settles with: \<open>Inr\<close> when it fulfils, \<open>Inl\<close> when it rejects.
\<close>

definition fetchGeminiReaction_begin :: "bool \<Rightarrow> component \<Rightarrow> component" where
  "fetchGeminiReaction_begin didScore c =
     c\<lparr>isLoadingGemini := True, geminiMessage := '''',
       geminiCalls := geminiCalls c @ [didScore]\<rparr>"

definition fetchGeminiReaction_settle ::
  "js_error + string \<Rightarrow> component \<Rightarrow> js_error + component" where
  "fetchGeminiReaction_settle r c =
     (let c1 = (case r of
                  Inr message \<Rightarrow> c\<lparr>geminiMessage := message\<rparr>
                | Inl e \<Rightarrow> c\<lparr>geminiMessage := ''Oops, Gemini is taking a timeout.''\<rparr>)
      in Inr (c1\<lparr>isLoadingGemini := False\<rparr>))"

text \<open>
  The whole call when nothing else runs between its two parts: \<open>response\<close> is
  what \<^verbatim>\<open>generateContent\<close> settles with.
\<close>

definition fetchGeminiReaction ::
  "gemini_service \<Rightarrow> js_error + string \<Rightarrow> bool \<Rightarrow> component \<Rightarrow> js_error + component" where
  "fetchGeminiReaction svc response didScore c =
     fetchGeminiReaction_settle (getShotReaction svc didScore response)
       (fetchGeminiReaction_begin didScore c)"

section \<open>Aiming and firing\<close>

datatype key = ArrowUp | ArrowDown | ArrowLeft | ArrowRight | FireKey | OtherKey

text \<open>
  \<open>FireKey\<close> is a key whose lower-cased name is \<^verbatim>\<open>x\<close> or \<^verbatim>\<open>c\<close>. A pointer
  event is the point \<^verbatim>\<open>getClientPos\<close> reads from it.
\<close>

definition onAimStart :: "vec \<Rightarrow> component \<Rightarrow> component" where
  "onAimStart p c = c\<lparr>gameState := Aiming, aimStartPos := Some p, aimCurrentPos := Some p\<rparr>"

definition onAiming :: "vec \<Rightarrow> component \<Rightarrow> component" where
  "onAiming p c = c\<lparr>aimCurrentPos := Some p\<rparr>"

text \<open>
  \<^verbatim>\<open>onAimEnd\<close> reads \<^verbatim>\<open>aimStartPos()!\<close> and \<^verbatim>\<open>aimCurrentPos()!\<close>: on a null
  the property access throws a TypeError before anything is written.
\<close>

definition onAimEnd :: "component \<Rightarrow> js_error + component" where
  "onAimEnd c =
     (case aimStartPos c of
        None \<Rightarrow> Inl TypeError
      | Some start \<Rightarrow>
          (case aimCurrentPos c of
             None \<Rightarrow> Inl TypeError
           | Some fin \<Rightarrow>
               (let dx = vx fin - vx start;
                    dy = vy fin - vy start;
                    dist = sqrt (dx * dx + dy * dy)
                in if dist = 0 then Inr (c\<lparr>gameState := Ready\<rparr>)
                   else
                     (let ratio = MAX_AIM_POWER / dist;
                          dx' = (if dist > MAX_AIM_POWER then dx * ratio else dx);
                          dy' = (if dist > MAX_AIM_POWER then dy * ratio else dy)
                      in Inr (c\<lparr>stagedVelocity :=
                                   Some \<lparr>vx = dx' * AIM_POWER_FACTOR,
                                         vy = dy' * AIM_POWER_FACTOR\<rparr>,
                                 gameState := Ready\<rparr>)))))"

definition requestAnimationFrame :: "component \<Rightarrow> component" where
  "requestAnimationFrame c =
     c\<lparr>rafNext := Suc (rafNext c), rafPending := insert (Suc (rafNext c)) (rafPending c),
       animationFrameId := Some (Suc (rafNext c))\<rparr>"

definition cancelAnimationFrame :: "nat \<Rightarrow> component \<Rightarrow> component" where
  "cancelAnimationFrame i c = c\<lparr>rafPending := rafPending c - {i}\<rparr>"

text \<open>\<^verbatim>\<open>if (this.animationFrameId)\<close>: neither null nor zero.\<close>

definition startGameLoop :: "component \<Rightarrow> component" where
  "startGameLoop c =
     requestAnimationFrame
       (case animationFrameId c of
          None \<Rightarrow> c
        | Some i \<Rightarrow> if i \<noteq> 0 then cancelAnimationFrame i c else c)"

definition fireShot :: "component \<Rightarrow> component" where
  "fireShot c =
     (case stagedVelocity c of
        None \<Rightarrow> c
      | Some velocity \<Rightarrow>
          startGameLoop
            (c\<lparr>shots := shots c + 1, ballVelocity := velocity, stagedVelocity := None,
               gameState := Shooting, aimStartPos := None, aimCurrentPos := None,
               wasAboveRim := False\<rparr>))"

definition onKeyDown :: "viewport \<Rightarrow> key \<Rightarrow> component \<Rightarrow> component" where
  "onKeyDown w k c =
     (if gameState c = Positioning then
        (let moveSpeed = 10;
             p = ballPosition c;
             p' = (case k of
                     ArrowUp \<Rightarrow> p\<lparr>vy := vy p - moveSpeed\<rparr>
                   | ArrowDown \<Rightarrow> p\<lparr>vy := vy p + moveSpeed\<rparr>
                   | ArrowLeft \<Rightarrow> p\<lparr>vx := vx p - moveSpeed\<rparr>
                   | ArrowRight \<Rightarrow> p\<lparr>vx := vx p + moveSpeed\<rparr>
                   | _ \<Rightarrow> p);
             constrainedX = max BALL_RADIUS (min (vx p') (innerWidth w / 2 - BALL_RADIUS));
             constrainedY = max BALL_RADIUS (min (vy p') (innerHeight w - BALL_RADIUS))
         in c\<lparr>ballPosition := \<lparr>vx = constrainedX, vy = constrainedY\<rparr>\<rparr>)
      else if gameState c = Ready \<and> k = FireKey then fireShot c
      else c)"

definition onPointerDown :: "vec \<Rightarrow> component \<Rightarrow> component" where
  "onPointerDown p c =
     (if gameState c = Positioning \<or> gameState c = Ready
      then onAimStart p (c\<lparr>stagedVelocity := None\<rparr>)
      else c)"

definition onPointerMove :: "vec \<Rightarrow> component \<Rightarrow> component" where
  "onPointerMove p c = (if gameState c = Aiming then onAiming p c else c)"

definition onPointerUp :: "component \<Rightarrow> js_error + component" where
  "onPointerUp c = (if gameState c = Aiming then onAimEnd c else Inr c)"

section \<open>The simulation step\<close>

text \<open>
  The locals \<^verbatim>\<open>pos\<close> and \<^verbatim>\<open>vel\<close> of \<^verbatim>\<open>updateGameState\<close>. Each block of the
  function that rewrites them is one function on this pair, in the order of the source.
\<close>

record ball =
  pos :: vec
  vel :: vec

definition integrate :: "ball \<Rightarrow> ball" where
  "integrate b =
     (let vel1 = (vel b)\<lparr>vy := vy (vel b) + GRAVITY\<rparr>;
          pos1 = (pos b)\<lparr>vx := vx (pos b) + vx vel1\<rparr>;
          pos2 = pos1\<lparr>vy := vy pos1 + vy vel1\<rparr>
      in \<lparr>pos = pos2, vel = vel1\<rparr>)"

definition floorBounce :: "viewport \<Rightarrow> ball \<Rightarrow> ball" where
  "floorBounce w b =
     (if vy (pos b) + BALL_RADIUS > innerHeight w
      then \<lparr>pos = (pos b)\<lparr>vy := innerHeight w - BALL_RADIUS\<rparr>,
            vel = \<lparr>vx = vx (vel b) * BOUNCE_DAMPENING,
                   vy = vy (vel b) * - BOUNCE_DAMPENING\<rparr>\<rparr>
      else b)"

definition wallBounce :: "viewport \<Rightarrow> ball \<Rightarrow> ball" where
  "wallBounce w b =
     (if vx (pos b) + BALL_RADIUS > innerWidth w \<or> vx (pos b) - BALL_RADIUS < 0
      then \<lparr>pos = (pos b)\<lparr>vx := (if vx (pos b) - BALL_RADIUS < 0 then BALL_RADIUS
                                    else innerWidth w - BALL_RADIUS)\<rparr>,
            vel = (vel b)\<lparr>vx := vx (vel b) * - 1\<rparr>\<rparr>
      else b)"

definition backboardBounce :: "viewport \<Rightarrow> ball \<Rightarrow> ball" where
  "backboardBounce w b =
     (if vx (pos b) + BALL_RADIUS > BACKBOARD_X w \<and>
         vy (pos b) > vy HOOP_POS \<and> vy (pos b) < vy HOOP_POS + BACKBOARD_height
      then \<lparr>pos = (pos b)\<lparr>vx := BACKBOARD_X w - BALL_RADIUS\<rparr>,
            vel = (vel b)\<lparr>vx := vx (vel b) * - BOUNCE_DAMPENING\<rparr>\<rparr>
      else b)"

definition rimPostBounce :: "viewport \<Rightarrow> ball \<Rightarrow> ball" where
  "rimPostBounce w b =
     (let distToRimFront = hypot (vx (pos b) - RIM_X_START w) (vy (pos b) - RIM_Y_POS);
          distToRimBack = hypot (vx (pos b) - RIM_X_END w) (vy (pos b) - RIM_Y_POS)
      in if distToRimFront < BALL_RADIUS \<or> distToRimBack < BALL_RADIUS
         then b\<lparr>vel := \<lparr>vx = vx (vel b) * BOUNCE_DAMPENING,
                         vy = vy (vel b) * - BOUNCE_DAMPENING\<rparr>\<rparr>
         else b)"

definition triggerConfetti :: "component \<Rightarrow> component" where
  "triggerConfetti c = c\<lparr>confettiPieces := [0..<50]\<rparr>"

definition triggerAnimations :: "component \<Rightarrow> component" where
  "triggerAnimations c = triggerConfetti (c\<lparr>animateScore := True, animateNet := True\<rparr>)"

text \<open>
  The two callbacks \<^verbatim>\<open>triggerAnimations\<close> hands to \<^verbatim>\<open>setTimeout\<close> (after 300 ms
  and after 200 ms).
\<close>

definition animateScoreTimeout :: "component \<Rightarrow> component" where
  "animateScoreTimeout c = c\<lparr>animateScore := False\<rparr>"

definition animateNetTimeout :: "component \<Rightarrow> component" where
  "animateNetTimeout c = c\<lparr>animateNet := False\<rparr>"

definition handleScore :: "component \<Rightarrow> component" where
  "handleScore c =
     triggerAnimations
       (fetchGeminiReaction_begin True (c\<lparr>gameState := Scored, score := score c + 1\<rparr>))"

definition handleMiss :: "component \<Rightarrow> component" where
  "handleMiss c = fetchGeminiReaction_begin False (c\<lparr>gameState := Missed\<rparr>)"

text \<open>
  \<open>atScoreTest\<close> is \<^verbatim>\<open>pos\<close>, \<^verbatim>\<open>vel\<close> when the source reaches line 263: after
  the integration, the floor bounce and the wall bounce. \<open>afterBounces\<close> is the pair
  when it reaches the miss test of line 290.
\<close>

definition atScoreTest :: "viewport \<Rightarrow> component \<Rightarrow> ball" where
  "atScoreTest w c =
     wallBounce w (floorBounce w (integrate \<lparr>pos = ballPosition c, vel = ballVelocity c\<rparr>))"

definition afterBounces :: "viewport \<Rightarrow> component \<Rightarrow> ball" where
  "afterBounces w c = rimPostBounce w (backboardBounce w (atScoreTest w c))"

definition updateGameState :: "viewport \<Rightarrow> component \<Rightarrow> component" where
  "updateGameState w c =
     (let b = atScoreTest w c;
          courtHeight = innerHeight w;
          isMovingDown = vy (vel b) > 0;
          c1 = (if vy (pos b) < RIM_Y_POS then c\<lparr>wasAboveRim := True\<rparr> else c)
      in if wasAboveRim c1 \<and> isMovingDown \<and>
            vy (pos b) > RIM_Y_POS \<and> vy (pos b) < RIM_Y_POS + 20 \<and>
            vx (pos b) > RIM_X_START w \<and> vx (pos b) < RIM_X_END w
         then handleScore c1
         else
           (let b' = afterBounces w c
            in if vy (pos b') > courtHeight + 100 \<or>
                  (\<bar>vx (vel b')\<bar> < 0.1 \<and> \<bar>vy (vel b')\<bar> < 0.1 \<and>
                   vy (pos b') > courtHeight - BALL_RADIUS - 1)
               then handleMiss c1
               else c1\<lparr>ballPosition := pos b', ballVelocity := vel b'\<rparr>))"

definition resetShot :: "viewport \<Rightarrow> component \<Rightarrow> component" where
  "resetShot w c =
     c\<lparr>gameState := Positioning, stagedVelocity := None,
       ballPosition := \<lparr>vx = 150, vy = innerHeight w - 150\<rparr>,
       ballVelocity := \<lparr>vx = 0, vy = 0\<rparr>,
       geminiMessage := '''', confettiPieces := []\<rparr>"

text \<open>
  The callback \<^verbatim>\<open>loop\<close> of \<^verbatim>\<open>startGameLoop\<close>, run by the browser for the
  pending handle \<open>i\<close> (a handle that is not pending has no callback to run).
\<close>

definition loop :: "viewport \<Rightarrow> nat \<Rightarrow> component \<Rightarrow> component" where
  "loop w i c =
     (if i \<in> rafPending c
      then (let c1 = updateGameState w (c\<lparr>rafPending := rafPending c - {i}\<rparr>)
            in if gameState c1 = Shooting then requestAnimationFrame c1 else c1)
      else c)"

section \<open>Events and reachable states\<close>

text \<open>
  Everything that runs code of the component: its input handlers (\<^verbatim>\<open>onKeyDown\<close>,
  \<^verbatim>\<open>onPointerDown\<close>, \<^verbatim>\<open>onPointerMove\<close>, \<^verbatim>\<open>onPointerUp\<close>, \<^verbatim>\<open>fireShot\<close>,
  \<^verbatim>\<open>resetShot\<close>), the animation-frame callback, the continuation of a commentary
  call and the two animation timers. A state is reachable when some sequence of these events
  leads to it from the initial state; the viewport may change between events. The
  continuation and the timers may run at any moment here, which covers every moment at
  which the browser can run them.
\<close>

datatype event =
    KeyDown key
  | PointerDown vec
  | PointerMove vec
  | PointerUp
  | FireShot
  | ResetShot
  | AnimationFrame nat
  | ReactionSettled "js_error + string"
  | AnimateScoreTimer
  | AnimateNetTimer

definition handle :: "viewport \<Rightarrow> event \<Rightarrow> component \<Rightarrow> js_error + component" where
  "handle w e c =
     (case e of
        KeyDown k \<Rightarrow> Inr (onKeyDown w k c)
      | PointerDown p \<Rightarrow> Inr (onPointerDown p c)
      | PointerMove p \<Rightarrow> Inr (onPointerMove p c)
      | PointerUp \<Rightarrow> onPointerUp c
      | FireShot \<Rightarrow> Inr (fireShot c)
      | ResetShot \<Rightarrow> Inr (resetShot w c)
      | AnimationFrame i \<Rightarrow> Inr (loop w i c)
      | ReactionSettled r \<Rightarrow> fetchGeminiReaction_settle r c
      | AnimateScoreTimer \<Rightarrow> Inr (animateScoreTimeout c)
      | AnimateNetTimer \<Rightarrow> Inr (animateNetTimeout c))"

inductive reachable :: "component \<Rightarrow> bool" where
  reachable_initial: "reachable (initial w)"
| reachable_handle: "reachable c \<Longrightarrow> handle w e c = Inr c' \<Longrightarrow> reachable c'"

text \<open>A sequence of events in one viewport; it stops at the first handler that throws.\<close>

fun run :: "viewport \<Rightarrow> event list \<Rightarrow> component \<Rightarrow> js_error + component" where
  "run w [] c = Inr c"
| "run w (e # es) c = (case handle w e c of Inl err \<Rightarrow> Inl err | Inr c' \<Rightarrow> run w es c')"

section \<open>Invariants of the reachable states, and concrete inputs\<close>

text \<open>While the player aims, nothing is staged and both ends of the drag are recorded.\<close>

definition aiming_ok :: "component \<Rightarrow> bool" where
  "aiming_ok c \<longleftrightarrow>
     (gameState c = Aiming \<longrightarrow>
        stagedVelocity c = None \<and> aimStartPos c \<noteq> None \<and> aimCurrentPos c \<noteq> None)"

text \<open>
  Every pending animation frame is the one whose handle the component holds, and its
  handle is one the browser has issued.
\<close>

definition frames_ok :: "component \<Rightarrow> bool" where
  "frames_ok c \<longleftrightarrow>
     (\<forall>i \<in> rafPending c. animationFrameId c = Some i \<and> 0 < i \<and> i \<le> rafNext c)"

text \<open>
  A ball in flight in a fresh component: position \<open>p\<close>, velocity \<open>v\<close>, the above-rim
  flag \<open>ab\<close>, state \<^verbatim>\<open>shooting\<close>. \<open>court\<close> is a 1000 by 800 viewport: the rim
  spans x from 840 to 900 at y = 250, the backboard stands at x = 900.
\<close>

definition inFlight :: "viewport \<Rightarrow> vec \<Rightarrow> vec \<Rightarrow> bool \<Rightarrow> component" where
  "inFlight w p v ab =
     (initial w)\<lparr>gameState := Shooting, shots := 1, ballPosition := p, ballVelocity := v,
                 wasAboveRim := ab\<rparr>"

definition court :: viewport where
  "court = \<lparr>innerWidth = 1000, innerHeight = 800\<rparr>"

text \<open>
  A viewport 280 wide and 399 high: the ball starts at (150, 249), one unit above the
  rim line and between the rim's ends (120 and 180). \<open>short_drag\<close> is a press at
  (100, 500), a move to (100, 502) and the release: it stages the velocity (0, 0.3).
\<close>

definition hoop_view :: viewport where
  "hoop_view = \<lparr>innerWidth = 280, innerHeight = 399\<rparr>"

definition short_drag :: "event list" where
  "short_drag = [PointerDown \<lparr>vx = 100, vy = 500\<rparr>, PointerMove \<lparr>vx = 100, vy = 502\<rparr>, PointerUp]"

text \<open>
  A basket and what follows it: the shot is fired, scores on its second tick, both
  animation timers run, the commentary arrives, the player resets and presses again.
  \<open>pressed_after_basket\<close> is the state this leads to from the initial one.
\<close>

definition basket_then_press :: "event list" where
  "basket_then_press =
     short_drag @
     [FireShot, AnimationFrame 1, AnimationFrame 2, AnimateNetTimer, AnimateScoreTimer,
      ReactionSettled (Inr ''Swish''), ResetShot, PointerDown \<lparr>vx = 100, vy = 500\<rparr>]"

definition pressed_after_basket :: component where
  "pressed_after_basket =
     (initial hoop_view)\<lparr>gameState := Aiming, score := 1, shots := 1,
       aimStartPos := Some \<lparr>vx = 100, vy = 500\<rparr>,
       aimCurrentPos := Some \<lparr>vx = 100, vy = 500\<rparr>,
       animationFrameId := Some 2, wasAboveRim := True, rafNext := 2,
       geminiCalls := [True]\<rparr>"

text \<open>
  From there the player aims and fires a second shot, resets after its first tick, while
  the next frame is pending, and aims again. \<open>reaimed_in_flight\<close> is the state this
  leads to: a velocity is staged, frame 4 is pending and \<open>wasAboveRim\<close> is still set.
\<close>

definition reset_in_flight_then_aim :: "event list" where
  "reset_in_flight_then_aim =
     [PointerMove \<lparr>vx = 100, vy = 502\<rparr>, PointerUp, FireShot, AnimationFrame 3, ResetShot] @
     short_drag"

definition reaimed_in_flight :: component where
  "reaimed_in_flight =
     (initial hoop_view)\<lparr>gameState := Ready, score := 1, shots := 2,
       stagedVelocity := Some \<lparr>vx = 0, vy = 0.3\<rparr>,
       aimStartPos := Some \<lparr>vx = 100, vy = 500\<rparr>,
       aimCurrentPos := Some \<lparr>vx = 100, vy = 502\<rparr>,
       animationFrameId := Some 4, wasAboveRim := True, rafNext := 4, rafPending := {4},
       geminiCalls := [True]\<rparr>"

section \<open>Basic facts\<close>

lemmas game_consts =
  GRAVITY_def BOUNCE_DAMPENING_def AIM_POWER_FACTOR_def MAX_AIM_POWER_def BALL_RADIUS_def
  HOOP_POS_def BACKBOARD_height_def RIM_width_def RIM_Y_POS_def RIM_X_START_def
  RIM_X_END_def BACKBOARD_X_def

lemma hypot_less_iff: "0 \<le> r \<Longrightarrow> hypot a b < r \<longleftrightarrow> a * a + b * b < r * r"
proof -
  assume r: "0 \<le> r"
  have "hypot a b < r \<longleftrightarrow> sqrt (a * a + b * b) < sqrt (r * r)"
    using r by (simp add: hypot_def)
  also have "\<dots> \<longleftrightarrow> a * a + b * b < r * r"
    by (rule real_sqrt_less_iff)
  finally show ?thesis .
qed

lemmas handler_defs =
  handleScore_def handleMiss_def triggerAnimations_def triggerConfetti_def
  fetchGeminiReaction_begin_def

lemma updateGameState_frame:
  "stagedVelocity (updateGameState w c) = stagedVelocity c"
  "aimStartPos (updateGameState w c) = aimStartPos c"
  "aimCurrentPos (updateGameState w c) = aimCurrentPos c"
  "rafPending (updateGameState w c) = rafPending c"
  "rafNext (updateGameState w c) = rafNext c"
  "animationFrameId (updateGameState w c) = animationFrameId c"
  "shots (updateGameState w c) = shots c"
  by (simp_all add: updateGameState_def Let_def handler_defs)

lemma updateGameState_gameState:
  "gameState (updateGameState w c) = Scored \<or> gameState (updateGameState w c) = Missed \<or>
   gameState (updateGameState w c) = gameState c"
  by (simp add: updateGameState_def Let_def handler_defs)

lemma updateGameState_wasAboveRim:
  "wasAboveRim (updateGameState w c) \<longleftrightarrow> wasAboveRim c \<or> vy (pos (atScoreTest w c)) < RIM_Y_POS"
  by (simp add: updateGameState_def Let_def handler_defs)

lemmas step_defs =
  updateGameState_def atScoreTest_def afterBounces_def integrate_def floorBounce_def
  wallBounce_def backboardBounce_def rimPostBounce_def

lemmas step_eval =
  step_defs handler_defs inFlight_def court_def initial_def game_consts Let_def hypot_less_iff

lemma aiming_ok_updates [simp]:
  "aiming_ok (c\<lparr>ballPosition := p\<rparr>) = aiming_ok c"
  "aiming_ok (c\<lparr>rafPending := ps\<rparr>) = aiming_ok c"
  "aiming_ok (c\<lparr>geminiMessage := m\<rparr>) = aiming_ok c"
  "aiming_ok (c\<lparr>isLoadingGemini := l\<rparr>) = aiming_ok c"
  "aiming_ok (animateScoreTimeout c) = aiming_ok c"
  "aiming_ok (animateNetTimeout c) = aiming_ok c"
  "aiming_ok (requestAnimationFrame c) = aiming_ok c"
  by (simp_all add: aiming_ok_def requestAnimationFrame_def animateScoreTimeout_def
      animateNetTimeout_def)

lemma frames_ok_updates [simp]:
  "frames_ok (c\<lparr>ballPosition := p\<rparr>) = frames_ok c"
  "frames_ok (c\<lparr>stagedVelocity := sv\<rparr>) = frames_ok c"
  "frames_ok (c\<lparr>gameState := g\<rparr>) = frames_ok c"
  "frames_ok (c\<lparr>aimStartPos := a\<rparr>) = frames_ok c"
  "frames_ok (c\<lparr>aimCurrentPos := a\<rparr>) = frames_ok c"
  "frames_ok (c\<lparr>geminiMessage := m\<rparr>) = frames_ok c"
  "frames_ok (c\<lparr>isLoadingGemini := l\<rparr>) = frames_ok c"
  "frames_ok (animateScoreTimeout c) = frames_ok c"
  "frames_ok (animateNetTimeout c) = frames_ok c"
  by (simp_all add: frames_ok_def animateScoreTimeout_def animateNetTimeout_def)

lemma fireShot_aiming_ok: "aiming_ok c \<Longrightarrow> aiming_ok (fireShot c)"
  by (simp add: aiming_ok_def fireShot_def startGameLoop_def requestAnimationFrame_def
      cancelAnimationFrame_def split: option.splits)

lemma fireShot_frames_ok: "frames_ok c \<Longrightarrow> frames_ok (fireShot c)"
  by (auto simp add: frames_ok_def fireShot_def startGameLoop_def requestAnimationFrame_def
      cancelAnimationFrame_def split: option.splits)

lemma aiming_ok_updateGameState: "aiming_ok c \<Longrightarrow> aiming_ok (updateGameState w c)"
  using updateGameState_gameState [of w c]
  by (auto simp add: aiming_ok_def updateGameState_frame)

lemma loop_aiming_ok: "aiming_ok c \<Longrightarrow> aiming_ok (loop w i c)"
  by (simp add: loop_def Let_def aiming_ok_updateGameState)

lemma frames_ok_single:
  assumes "frames_ok c" and "i \<in> rafPending c"
  shows "rafPending c = {i}"
proof -
  have i: "animationFrameId c = Some i"
    using assms by (simp add: frames_ok_def)
  have "j = i" if "j \<in> rafPending c" for j
  proof -
    from that assms(1) have "animationFrameId c = Some j"
      by (simp add: frames_ok_def)
    with i show ?thesis by simp
  qed
  with assms(2) show ?thesis by blast
qed

lemma loop_frames_ok:
  assumes "frames_ok c"
  shows "frames_ok (loop w i c)"
proof (cases "i \<in> rafPending c")
  case True
  with assms have p: "rafPending c - {i} = {}"
    by (simp add: frames_ok_single)
  let ?c1 = "updateGameState w (c\<lparr>rafPending := {}\<rparr>)"
  have e: "rafPending ?c1 = {}"
    by (simp add: updateGameState_frame)
  then have 1: "frames_ok ?c1"
    by (simp add: frames_ok_def)
  from e have 2: "frames_ok (requestAnimationFrame ?c1)"
    by (simp add: frames_ok_def requestAnimationFrame_def)
  from True 1 2 show ?thesis
    by (simp add: loop_def Let_def p)
next
  case False
  with assms show ?thesis by (simp add: loop_def)
qed

lemma onKeyDown_aiming_ok: "aiming_ok c \<Longrightarrow> aiming_ok (onKeyDown w k c)"
  by (simp add: onKeyDown_def Let_def fireShot_aiming_ok)

lemma onKeyDown_frames_ok: "frames_ok c \<Longrightarrow> frames_ok (onKeyDown w k c)"
  by (simp add: onKeyDown_def Let_def fireShot_frames_ok)

lemma onAimEnd_shape:
  assumes "onAimEnd c = Inr c'"
  shows "\<exists>sv. c' = c\<lparr>stagedVelocity := sv, gameState := Ready\<rparr>"
proof -
  from assms obtain start fin where s: "aimStartPos c = Some start" "aimCurrentPos c = Some fin"
    by (auto simp add: onAimEnd_def split: option.splits)
  define dx where "dx = vx fin - vx start"
  define dy where "dy = vy fin - vy start"
  define dist where "dist = sqrt (dx * dx + dy * dy)"
  define v where "v = \<lparr>vx = (if dist > MAX_AIM_POWER then dx * (MAX_AIM_POWER / dist) else dx) * AIM_POWER_FACTOR,
     vy = (if dist > MAX_AIM_POWER then dy * (MAX_AIM_POWER / dist) else dy) * AIM_POWER_FACTOR\<rparr>"
  have eq: "onAimEnd c = (if dist = 0 then Inr (c\<lparr>gameState := Ready\<rparr>)
       else Inr (c\<lparr>stagedVelocity := Some v, gameState := Ready\<rparr>))"
    unfolding onAimEnd_def s option.case Let_def dist_def dx_def dy_def v_def ..
  have r: "c\<lparr>gameState := Ready\<rparr> = c\<lparr>stagedVelocity := stagedVelocity c, gameState := Ready\<rparr>"
    by simp
  show ?thesis
  proof (cases "dist = 0")
    case True
    with eq assms have "c' = c\<lparr>gameState := Ready\<rparr>" by simp
    with r show ?thesis by blast
  next
    case False
    with eq assms have "c' = c\<lparr>stagedVelocity := Some v, gameState := Ready\<rparr>" by simp
    then show ?thesis by blast
  qed
qed

lemma onAimEnd_frame:
  assumes "onAimEnd c = Inr c'"
  shows "gameState c' = Ready" and "rafPending c' = rafPending c"
    and "animationFrameId c' = animationFrameId c" and "rafNext c' = rafNext c"
    and "wasAboveRim c' = wasAboveRim c"
  using onAimEnd_shape [OF assms] by auto

lemma onAimEnd_defined:
  assumes "aimStartPos c = Some start" and "aimCurrentPos c = Some fin"
  shows "\<exists>c'. onAimEnd c = Inr c'"
  unfolding onAimEnd_def assms option.case Let_def
  by (simp only: if_distrib [of "\<lambda>r. \<exists>c'. r = Inr c'"] sum.inject simp_thms if_cancel)

lemma onPointerUp_aiming_ok: "aiming_ok c \<Longrightarrow> onPointerUp c = Inr c' \<Longrightarrow> aiming_ok c'"
  by (auto simp add: onPointerUp_def aiming_ok_def dest: onAimEnd_frame(1) split: if_splits)

lemma onPointerUp_frames_ok: "frames_ok c \<Longrightarrow> onPointerUp c = Inr c' \<Longrightarrow> frames_ok c'"
  by (auto simp add: onPointerUp_def frames_ok_def onAimEnd_frame split: if_splits)

lemma handle_aiming_ok:
  assumes "aiming_ok c" and "handle w e c = Inr c'"
  shows "aiming_ok c'"
proof (cases e)
  case (KeyDown k)
  with assms show ?thesis by (auto simp add: handle_def onKeyDown_aiming_ok)
next
  case (PointerDown p)
  with assms show ?thesis
    by (auto simp add: handle_def onPointerDown_def onAimStart_def aiming_ok_def)
next
  case (PointerMove p)
  with assms show ?thesis
    by (auto simp add: handle_def onPointerMove_def onAiming_def aiming_ok_def)
next
  case PointerUp
  with assms show ?thesis by (auto simp add: handle_def intro: onPointerUp_aiming_ok)
next
  case FireShot
  with assms show ?thesis by (auto simp add: handle_def fireShot_aiming_ok)
next
  case ResetShot
  with assms show ?thesis by (auto simp add: handle_def resetShot_def aiming_ok_def)
next
  case (AnimationFrame i)
  with assms show ?thesis by (auto simp add: handle_def loop_aiming_ok)
next
  case (ReactionSettled r)
  with assms show ?thesis
    by (cases r) (auto simp add: handle_def fetchGeminiReaction_settle_def)
next
  case AnimateScoreTimer
  with assms show ?thesis by (auto simp add: handle_def)
next
  case AnimateNetTimer
  with assms show ?thesis by (auto simp add: handle_def)
qed

lemma handle_frames_ok:
  assumes "frames_ok c" and "handle w e c = Inr c'"
  shows "frames_ok c'"
proof (cases e)
  case (KeyDown k)
  with assms show ?thesis by (auto simp add: handle_def onKeyDown_frames_ok)
next
  case (PointerDown p)
  with assms show ?thesis
    by (auto simp add: handle_def onPointerDown_def onAimStart_def)
next
  case (PointerMove p)
  with assms show ?thesis
    by (auto simp add: handle_def onPointerMove_def onAiming_def)
next
  case PointerUp
  with assms show ?thesis by (auto simp add: handle_def intro: onPointerUp_frames_ok)
next
  case FireShot
  with assms show ?thesis by (auto simp add: handle_def fireShot_frames_ok)
next
  case ResetShot
  with assms show ?thesis by (auto simp add: handle_def resetShot_def frames_ok_def)
next
  case (AnimationFrame i)
  with assms show ?thesis by (auto simp add: handle_def loop_frames_ok)
next
  case (ReactionSettled r)
  with assms show ?thesis
    by (cases r) (auto simp add: handle_def fetchGeminiReaction_settle_def)
next
  case AnimateScoreTimer
  with assms show ?thesis by (auto simp add: handle_def)
next
  case AnimateNetTimer
  with assms show ?thesis by (auto simp add: handle_def)
qed

lemma reachable_aiming_ok: "reachable c \<Longrightarrow> aiming_ok c"
proof (induction rule: reachable.induct)
  case (reachable_initial w)
  show ?case by (simp add: aiming_ok_def initial_def)
next
  case (reachable_handle c w e c')
  then show ?case by (blast intro: handle_aiming_ok)
qed

lemma reachable_frames_ok: "reachable c \<Longrightarrow> frames_ok c"
proof (induction rule: reachable.induct)
  case (reachable_initial w)
  show ?case by (simp add: frames_ok_def initial_def)
next
  case (reachable_handle c w e c')
  then show ?case by (blast intro: handle_frames_ok)
qed

text \<open>No handler throws in a reachable state.\<close>

lemma reachable_never_throws: "reachable c \<Longrightarrow> \<exists>c'. handle w e c = Inr c'"
proof -
  assume "reachable c"
  then have a: "aiming_ok c" by (rule reachable_aiming_ok)
  show ?thesis
  proof (cases e)
    case PointerUp
    show ?thesis
    proof (cases "gameState c = Aiming")
      case True
      with a obtain start fin where "aimStartPos c = Some start" "aimCurrentPos c = Some fin"
        by (auto simp add: aiming_ok_def)
      then have "\<exists>c'. onAimEnd c = Inr c'" by (rule onAimEnd_defined)
      with True PointerUp show ?thesis by (simp add: handle_def onPointerUp_def)
    next
      case False
      with PointerUp show ?thesis by (simp add: handle_def onPointerUp_def)
    qed
  next
    case (ReactionSettled r)
    then show ?thesis
      by (simp add: handle_def fetchGeminiReaction_settle_def)
  qed (simp_all add: handle_def)
qed

lemma fireShot_nothing_staged: "stagedVelocity c = None \<Longrightarrow> fireShot c = c"
  by (simp add: fireShot_def)

lemma onKeyDown_wasAboveRim:
  "wasAboveRim (onKeyDown w k c) = wasAboveRim c \<or> onKeyDown w k c = fireShot c"
  by (simp add: onKeyDown_def Let_def)

lemma loop_wasAboveRim: "wasAboveRim c \<Longrightarrow> wasAboveRim (loop w i c)"
  by (simp add: loop_def Let_def requestAnimationFrame_def updateGameState_wasAboveRim)

lemma handle_wasAboveRim:
  assumes "handle w e c = Inr c'" and "wasAboveRim c" and "\<not> wasAboveRim c'"
  shows "stagedVelocity c \<noteq> None \<and> c' = fireShot c"
proof -
  have fired: "stagedVelocity c \<noteq> None" if "c' = fireShot c"
  proof
    assume "stagedVelocity c = None"
    with that have "c' = c" by (simp add: fireShot_nothing_staged)
    with assms(2,3) show False by simp
  qed
  show ?thesis
  proof (cases e)
    case (KeyDown k)
    with assms have "c' = fireShot c"
      using onKeyDown_wasAboveRim [of w k c] by (auto simp add: handle_def)
    with fired show ?thesis by simp
  next
    case (PointerDown p)
    with assms show ?thesis
      by (auto simp add: handle_def onPointerDown_def onAimStart_def split: if_splits)
  next
    case (PointerMove p)
    with assms show ?thesis
      by (auto simp add: handle_def onPointerMove_def onAiming_def split: if_splits)
  next
    case PointerUp
    with assms show ?thesis
      by (auto simp add: handle_def onPointerUp_def onAimEnd_frame split: if_splits)
  next
    case FireShot
    with assms have "c' = fireShot c" by (simp add: handle_def)
    with fired show ?thesis by simp
  next
    case ResetShot
    with assms show ?thesis by (auto simp add: handle_def resetShot_def)
  next
    case (AnimationFrame i)
    with assms show ?thesis by (auto simp add: handle_def loop_wasAboveRim)
  next
    case (ReactionSettled r)
    with assms show ?thesis
      by (cases r) (auto simp add: handle_def fetchGeminiReaction_settle_def)
  next
    case AnimateScoreTimer
    with assms show ?thesis by (auto simp add: handle_def animateScoreTimeout_def)
  next
    case AnimateNetTimer
    with assms show ?thesis by (auto simp add: handle_def animateNetTimeout_def)
  qed
qed

lemma frames_ok_cancel:
  assumes "frames_ok c"
  shows "rafPending (case animationFrameId c of None \<Rightarrow> c
           | Some i \<Rightarrow> if i \<noteq> 0 then cancelAnimationFrame i c else c) = {}"
proof (cases "animationFrameId c")
  case None
  with assms show ?thesis by (auto simp add: frames_ok_def)
next
  case (Some i)
  with assms show ?thesis by (auto simp add: frames_ok_def cancelAnimationFrame_def)
qed

lemma reachable_run: "reachable c \<Longrightarrow> run w es c = Inr c' \<Longrightarrow> reachable c'"
proof (induction es arbitrary: c)
  case Nil
  then show ?case by simp
next
  case (Cons e es)
  from Cons.prems(2) obtain c1 where h: "handle w e c = Inr c1" and r: "run w es c1 = Inr c'"
    by (auto split: sum.splits)
  from Cons.prems(1) h have "reachable c1" by (rule reachable_handle)
  then show ?case using r by (rule Cons.IH)
qed

lemma run_append:
  "run w (es @ fs) c = (case run w es c of Inl err \<Rightarrow> Inl err | Inr c' \<Rightarrow> run w fs c')"
  by (induction es arbitrary: c) (auto split: sum.splits)

lemmas event_eval =
  handle_def onPointerDown_def onPointerMove_def onPointerUp_def onAimStart_def onAiming_def
  onAimEnd_def fireShot_def startGameLoop_def requestAnimationFrame_def
  cancelAnimationFrame_def loop_def resetShot_def fetchGeminiReaction_settle_def
  animateScoreTimeout_def animateNetTimeout_def step_defs handler_defs game_consts Let_def
  hypot_less_iff

lemma run_basket_then_press:
  "run hoop_view basket_then_press (initial hoop_view) = Inr pressed_after_basket"
  by (simp add: basket_then_press_def short_drag_def pressed_after_basket_def hoop_view_def
      initial_def event_eval)

lemma run_reset_in_flight_then_aim:
  "run hoop_view reset_in_flight_then_aim pressed_after_basket = Inr reaimed_in_flight"
  by (simp add: reset_in_flight_then_aim_def short_drag_def pressed_after_basket_def
      reaimed_in_flight_def hoop_view_def initial_def event_eval)

lemma reachable_pressed_after_basket: "reachable pressed_after_basket"
  using reachable_initial run_basket_then_press by (rule reachable_run)

lemma reachable_reaimed_in_flight: "reachable reaimed_in_flight"
  using reachable_pressed_after_basket run_reset_in_flight_then_aim by (rule reachable_run)

lemma hypot_scale: "0 \<le> k \<Longrightarrow> hypot (a * k) (b * k) = hypot a b * k"
proof -
  assume k: "0 \<le> k"
  have "a * k * (a * k) + b * k * (b * k) = (a * a + b * b) * (k * k)"
    by (simp add: algebra_simps)
  then have "hypot (a * k) (b * k) = sqrt (a * a + b * b) * sqrt (k * k)"
    by (simp add: hypot_def real_sqrt_mult)
  with k show ?thesis by (simp add: hypot_def)
qed

lemma hypot_pos: "a \<noteq> 0 \<or> b \<noteq> 0 \<Longrightarrow> 0 < hypot a b"
  by (auto simp add: hypot_def sum_squares_gt_zero_iff)

section \<open>The score test\<close>

text \<open>
  C1. The score test reads the position and velocity the step has by then: after the
  integration, the floor bounce and the wall bounce. With the above-rim flag set, that
  velocity pointing down and that x strictly between the rim's ends, the tick scores
  when that y lies strictly between \<open>RIM_Y_POS\<close> and \<open>RIM_Y_POS + 20\<close>; with that y on
  either edge of the band, a tick taken in state \<^verbatim>\<open>shooting\<close> does not score.
\<close>

theorem score_band_open:
  assumes "wasAboveRim c" and "0 < vy (vel (atScoreTest w c))"
    and "RIM_X_START w < vx (pos (atScoreTest w c))"
    and "vx (pos (atScoreTest w c)) < RIM_X_END w"
  shows "(RIM_Y_POS < vy (pos (atScoreTest w c)) \<and> vy (pos (atScoreTest w c)) < RIM_Y_POS + 20
           \<longrightarrow> gameState (updateGameState w c) = Scored \<and>
               score (updateGameState w c) = score c + 1) \<and>
         (gameState c = Shooting \<and>
          (vy (pos (atScoreTest w c)) = RIM_Y_POS \<or> vy (pos (atScoreTest w c)) = RIM_Y_POS + 20)
           \<longrightarrow> gameState (updateGameState w c) \<noteq> Scored \<and>
               score (updateGameState w c) = score c)"
  using assms by (auto simp add: updateGameState_def Let_def handler_defs)

theorem score_band_open_witness:
  "gameState (updateGameState court
      (inFlight court \<lparr>vx = 870, vy = 255\<rparr> \<lparr>vx = 0, vy = 0.6\<rparr> True)) = Scored \<and>
   score (updateGameState court
      (inFlight court \<lparr>vx = 870, vy = 255\<rparr> \<lparr>vx = 0, vy = 0.6\<rparr> True)) = 1 \<and>
   vy (pos (atScoreTest court
      (inFlight court \<lparr>vx = 870, vy = 269\<rparr> \<lparr>vx = 0, vy = 0.6\<rparr> True))) = RIM_Y_POS + 20 \<and>
   gameState (updateGameState court
      (inFlight court \<lparr>vx = 870, vy = 269\<rparr> \<lparr>vx = 0, vy = 0.6\<rparr> True)) \<noteq> Scored"
proof -
  let ?a = "inFlight court \<lparr>vx = 870, vy = 255\<rparr> \<lparr>vx = 0, vy = 0.6\<rparr> True"
  let ?b = "inFlight court \<lparr>vx = 870, vy = 269\<rparr> \<lparr>vx = 0, vy = 0.6\<rparr> True"
  have a: "atScoreTest court ?a = \<lparr>pos = \<lparr>vx = 870, vy = 256\<rparr>, vel = \<lparr>vx = 0, vy = 1\<rparr>\<rparr>"
    by (simp add: atScoreTest_def integrate_def floorBounce_def wallBounce_def inFlight_def
        court_def initial_def game_consts Let_def)
  have b: "atScoreTest court ?b = \<lparr>pos = \<lparr>vx = 870, vy = 270\<rparr>, vel = \<lparr>vx = 0, vy = 1\<rparr>\<rparr>"
    by (simp add: atScoreTest_def integrate_def floorBounce_def wallBounce_def inFlight_def
        court_def initial_def game_consts Let_def)
  have "gameState (updateGameState court ?a) = Scored \<and>
        score (updateGameState court ?a) = score ?a + 1"
    using score_band_open [of ?a court] a
    by (simp add: inFlight_def court_def game_consts)
  moreover have "gameState (updateGameState court ?b) \<noteq> Scored"
    using score_band_open [of ?b court] b
    by (simp add: inFlight_def court_def game_consts)
  moreover have "score ?a = 0" by (simp add: inFlight_def initial_def)
  ultimately show ?thesis using b by (simp add: game_consts)
qed

text \<open>
  On the lower edge the band is open. First input: the score test sees the ball exactly
  on the rim line, moving down between the rim's ends with the flag set, and the tick
  does not score. Second input: a ball stored exactly on the rim line, moving down so
  fast that the integration carries it past the band before the test reads it.
\<close>

theorem score_band_lower_edge_counterexample:
  "wasAboveRim (inFlight court \<lparr>vx = 870, vy = 249\<rparr> \<lparr>vx = 0, vy = 0.6\<rparr> True) \<and>
   atScoreTest court (inFlight court \<lparr>vx = 870, vy = 249\<rparr> \<lparr>vx = 0, vy = 0.6\<rparr> True) =
     \<lparr>pos = \<lparr>vx = 870, vy = RIM_Y_POS\<rparr>, vel = \<lparr>vx = 0, vy = 1\<rparr>\<rparr> \<and>
   RIM_X_START court < 870 \<and> 870 < RIM_X_END court \<and>
   gameState (updateGameState court
     (inFlight court \<lparr>vx = 870, vy = 249\<rparr> \<lparr>vx = 0, vy = 0.6\<rparr> True)) = Shooting \<and>
   score (updateGameState court
     (inFlight court \<lparr>vx = 870, vy = 249\<rparr> \<lparr>vx = 0, vy = 0.6\<rparr> True)) = 0 \<and>
   gameState (updateGameState court
     (inFlight court \<lparr>vx = 870, vy = RIM_Y_POS\<rparr> \<lparr>vx = 0, vy = 24.6\<rparr> True)) = Shooting \<and>
   score (updateGameState court
     (inFlight court \<lparr>vx = 870, vy = RIM_Y_POS\<rparr> \<lparr>vx = 0, vy = 24.6\<rparr> True)) = 0"
  by (simp add: step_eval)

section \<open>Bounces\<close>

text \<open>
  C2. No bounce raises the magnitude of a velocity component: the floor and the rim
  posts scale both components by \<open>BOUNCE_DAMPENING\<close> (flipping \<open>y\<close>), the
  backboard scales and flips \<open>x\<close>, and \<open>BOUNCE_DAMPENING = 0.7\<close> lies strictly
  between 0 and 1, so for these three a non-zero affected component strictly loses
  magnitude when the bounce happens. The wall bounce only negates \<open>x\<close>: magnitude
  unchanged.
\<close>

theorem bounce_dampening:
  "\<bar>vx (vel (floorBounce w b))\<bar> \<le> \<bar>vx (vel b)\<bar> \<and>
   \<bar>vy (vel (floorBounce w b))\<bar> \<le> \<bar>vy (vel b)\<bar> \<and>
   \<bar>vx (vel (wallBounce w b))\<bar> = \<bar>vx (vel b)\<bar> \<and>
   vy (vel (wallBounce w b)) = vy (vel b) \<and>
   \<bar>vx (vel (backboardBounce w b))\<bar> \<le> \<bar>vx (vel b)\<bar> \<and>
   vy (vel (backboardBounce w b)) = vy (vel b) \<and>
   \<bar>vx (vel (rimPostBounce w b))\<bar> \<le> \<bar>vx (vel b)\<bar> \<and>
   \<bar>vy (vel (rimPostBounce w b))\<bar> \<le> \<bar>vy (vel b)\<bar> \<and>
   0 < BOUNCE_DAMPENING \<and> BOUNCE_DAMPENING < 1 \<and>
   (vy (pos b) + BALL_RADIUS > innerHeight w \<longrightarrow>
      (vx (vel b) \<noteq> 0 \<longrightarrow> \<bar>vx (vel (floorBounce w b))\<bar> < \<bar>vx (vel b)\<bar>) \<and>
      (vy (vel b) \<noteq> 0 \<longrightarrow> \<bar>vy (vel (floorBounce w b))\<bar> < \<bar>vy (vel b)\<bar>)) \<and>
   (vx (pos b) + BALL_RADIUS > BACKBOARD_X w \<and>
    vy (pos b) > vy HOOP_POS \<and> vy (pos b) < vy HOOP_POS + BACKBOARD_height \<and>
    vx (vel b) \<noteq> 0 \<longrightarrow>
      \<bar>vx (vel (backboardBounce w b))\<bar> < \<bar>vx (vel b)\<bar>) \<and>
   (hypot (vx (pos b) - RIM_X_START w) (vy (pos b) - RIM_Y_POS) < BALL_RADIUS \<or>
    hypot (vx (pos b) - RIM_X_END w) (vy (pos b) - RIM_Y_POS) < BALL_RADIUS \<longrightarrow>
      (vx (vel b) \<noteq> 0 \<longrightarrow> \<bar>vx (vel (rimPostBounce w b))\<bar> < \<bar>vx (vel b)\<bar>) \<and>
      (vy (vel b) \<noteq> 0 \<longrightarrow> \<bar>vy (vel (rimPostBounce w b))\<bar> < \<bar>vy (vel b)\<bar>))"
proof -
  have floor: "\<bar>vx (vel (floorBounce w b))\<bar> \<le> \<bar>vx (vel b)\<bar>"
    "\<bar>vy (vel (floorBounce w b))\<bar> \<le> \<bar>vy (vel b)\<bar>"
    by (simp_all add: floorBounce_def BOUNCE_DAMPENING_def abs_mult)
  have wall: "\<bar>vx (vel (wallBounce w b))\<bar> = \<bar>vx (vel b)\<bar>"
    "vy (vel (wallBounce w b)) = vy (vel b)"
    by (simp_all add: wallBounce_def)
  have board: "\<bar>vx (vel (backboardBounce w b))\<bar> \<le> \<bar>vx (vel b)\<bar>"
    "vy (vel (backboardBounce w b)) = vy (vel b)"
    by (simp_all add: backboardBounce_def BOUNCE_DAMPENING_def abs_mult)
  have rim: "\<bar>vx (vel (rimPostBounce w b))\<bar> \<le> \<bar>vx (vel b)\<bar>"
    "\<bar>vy (vel (rimPostBounce w b))\<bar> \<le> \<bar>vy (vel b)\<bar>"
    by (simp_all add: rimPostBounce_def Let_def BOUNCE_DAMPENING_def abs_mult)
  have factor: "0 < BOUNCE_DAMPENING" "BOUNCE_DAMPENING < 1"
    by (simp_all add: BOUNCE_DAMPENING_def)
  have floor_strict: "vy (pos b) + BALL_RADIUS > innerHeight w \<longrightarrow>
      (vx (vel b) \<noteq> 0 \<longrightarrow> \<bar>vx (vel (floorBounce w b))\<bar> < \<bar>vx (vel b)\<bar>) \<and>
      (vy (vel b) \<noteq> 0 \<longrightarrow> \<bar>vy (vel (floorBounce w b))\<bar> < \<bar>vy (vel b)\<bar>)"
    by (simp add: floorBounce_def BOUNCE_DAMPENING_def abs_mult)
  have board_strict: "vx (pos b) + BALL_RADIUS > BACKBOARD_X w \<and>
    vy (pos b) > vy HOOP_POS \<and> vy (pos b) < vy HOOP_POS + BACKBOARD_height \<and>
    vx (vel b) \<noteq> 0 \<longrightarrow>
      \<bar>vx (vel (backboardBounce w b))\<bar> < \<bar>vx (vel b)\<bar>"
    by (simp add: backboardBounce_def BOUNCE_DAMPENING_def abs_mult)
  have rim_strict: "hypot (vx (pos b) - RIM_X_START w) (vy (pos b) - RIM_Y_POS) < BALL_RADIUS \<or>
    hypot (vx (pos b) - RIM_X_END w) (vy (pos b) - RIM_Y_POS) < BALL_RADIUS \<longrightarrow>
      (vx (vel b) \<noteq> 0 \<longrightarrow> \<bar>vx (vel (rimPostBounce w b))\<bar> < \<bar>vx (vel b)\<bar>) \<and>
      (vy (vel b) \<noteq> 0 \<longrightarrow> \<bar>vy (vel (rimPostBounce w b))\<bar> < \<bar>vy (vel b)\<bar>)"
    by (simp add: rimPostBounce_def Let_def BOUNCE_DAMPENING_def abs_mult)
  from floor wall board rim factor floor_strict board_strict rim_strict
  show ?thesis by (intro conjI)
qed

theorem bounce_dampening_witness:
  "\<bar>vy (vel (floorBounce court \<lparr>pos = \<lparr>vx = 500, vy = 790\<rparr>, vel = \<lparr>vx = 3, vy = 4\<rparr>\<rparr>))\<bar> < 4 \<and>
   \<bar>vx (vel (floorBounce court \<lparr>pos = \<lparr>vx = 500, vy = 790\<rparr>, vel = \<lparr>vx = 3, vy = 4\<rparr>\<rparr>))\<bar> < 3 \<and>
   \<bar>vx (vel (backboardBounce court \<lparr>pos = \<lparr>vx = 885, vy = 220\<rparr>, vel = \<lparr>vx = 3, vy = 4\<rparr>\<rparr>))\<bar> < 3 \<and>
   \<bar>vx (vel (rimPostBounce court \<lparr>pos = \<lparr>vx = 850, vy = 255\<rparr>, vel = \<lparr>vx = 3, vy = 4\<rparr>\<rparr>))\<bar> < 3 \<and>
   \<bar>vy (vel (rimPostBounce court \<lparr>pos = \<lparr>vx = 850, vy = 255\<rparr>, vel = \<lparr>vx = 3, vy = 4\<rparr>\<rparr>))\<bar> < 4"
proof -
  let ?f = "\<lparr>pos = \<lparr>vx = 500, vy = 790\<rparr>, vel = \<lparr>vx = 3, vy = 4\<rparr>\<rparr>"
  let ?k = "\<lparr>pos = \<lparr>vx = 885, vy = 220\<rparr>, vel = \<lparr>vx = 3, vy = 4\<rparr>\<rparr>"
  let ?r = "\<lparr>pos = \<lparr>vx = 850, vy = 255\<rparr>, vel = \<lparr>vx = 3, vy = 4\<rparr>\<rparr>"
  have hf: "vy (pos ?f) + BALL_RADIUS > innerHeight court"
    by (simp add: court_def game_consts)
  have hk: "vx (pos ?k) + BALL_RADIUS > BACKBOARD_X court \<and>
    vy (pos ?k) > vy HOOP_POS \<and> vy (pos ?k) < vy HOOP_POS + BACKBOARD_height"
    by (simp add: court_def game_consts)
  have hr: "hypot (vx (pos ?r) - RIM_X_START court) (vy (pos ?r) - RIM_Y_POS) < BALL_RADIUS"
    by (simp add: court_def game_consts hypot_less_iff)
  from hf bounce_dampening [of court ?f]
  have 1: "\<bar>vy (vel (floorBounce court ?f))\<bar> < 4 \<and> \<bar>vx (vel (floorBounce court ?f))\<bar> < 3"
    by simp
  from hk bounce_dampening [of court ?k]
  have 2: "\<bar>vx (vel (backboardBounce court ?k))\<bar> < 3"
    by simp
  from hr bounce_dampening [of court ?r]
  have 3: "\<bar>vx (vel (rimPostBounce court ?r))\<bar> < 3 \<and> \<bar>vy (vel (rimPostBounce court ?r))\<bar> < 4"
    by simp
  from 1 2 3 show ?thesis by simp
qed

text \<open>
  A tick whose ball reaches the right wall: the stored \<open>x\<close> velocity goes from 5 to
  -5, its magnitude is not reduced.
\<close>

theorem wall_bounce_keeps_speed_counterexample:
  "innerWidth court <
     vx (pos (floorBounce court
        (integrate \<lparr>pos = \<lparr>vx = 985, vy = 400\<rparr>, vel = \<lparr>vx = 5, vy = 0\<rparr>\<rparr>))) + BALL_RADIUS \<and>
   ballVelocity (updateGameState court
      (inFlight court \<lparr>vx = 985, vy = 400\<rparr> \<lparr>vx = 5, vy = 0\<rparr> False)) = \<lparr>vx = - 5, vy = 0.4\<rparr> \<and>
   \<not> \<bar>vx (ballVelocity (updateGameState court
          (inFlight court \<lparr>vx = 985, vy = 400\<rparr> \<lparr>vx = 5, vy = 0\<rparr> False)))\<bar> < \<bar>5\<bar>"
  by (simp add: step_eval)

section \<open>Scoring needs a ball that moves down\<close>

text \<open>
  C3. In a tick taken in state \<^verbatim>\<open>shooting\<close>, a ball whose \<open>y\<close> velocity is not
  positive when the score test reads it (after the gravity step and the floor bounce)
  does not score, wherever it is; this holds in particular for a stored velocity with
  \<open>velocity.y + GRAVITY \<le> 0\<close> when the integrated ball does not reach the floor.
\<close>

theorem score_requires_moving_down:
  assumes "gameState c = Shooting"
  shows "(vy (vel (atScoreTest w c)) \<le> 0 \<longrightarrow>
           gameState (updateGameState w c) \<noteq> Scored \<and> score (updateGameState w c) = score c) \<and>
         (vy (ballVelocity c) + GRAVITY \<le> 0 \<and>
          vy (ballPosition c) + (vy (ballVelocity c) + GRAVITY) + BALL_RADIUS \<le> innerHeight w \<longrightarrow>
           gameState (updateGameState w c) \<noteq> Scored \<and> score (updateGameState w c) = score c)"
proof -
  have 1: "gameState (updateGameState w c) \<noteq> Scored \<and> score (updateGameState w c) = score c"
    if "vy (vel (atScoreTest w c)) \<le> 0"
    using that assms by (simp add: updateGameState_def Let_def handler_defs)
  have 2: "vy (vel (atScoreTest w c)) \<le> 0"
    if "vy (ballVelocity c) + GRAVITY \<le> 0"
      and "vy (ballPosition c) + (vy (ballVelocity c) + GRAVITY) + BALL_RADIUS \<le> innerHeight w"
    using that
    by (simp add: atScoreTest_def integrate_def floorBounce_def wallBounce_def Let_def)
  from 1 2 show ?thesis by blast
qed

theorem score_requires_moving_down_witness:
  "vy (ballVelocity (inFlight court \<lparr>vx = 870, vy = 260\<rparr> \<lparr>vx = 0, vy = - 5\<rparr> True)) + GRAVITY \<le> 0 \<and>
   gameState (updateGameState court
      (inFlight court \<lparr>vx = 870, vy = 260\<rparr> \<lparr>vx = 0, vy = - 5\<rparr> True)) \<noteq> Scored \<and>
   score (updateGameState court
      (inFlight court \<lparr>vx = 870, vy = 260\<rparr> \<lparr>vx = 0, vy = - 5\<rparr> True)) = 0"
proof -
  let ?c = "inFlight court \<lparr>vx = 870, vy = 260\<rparr> \<lparr>vx = 0, vy = - 5\<rparr> True"
  have s: "gameState ?c = Shooting" by (simp add: inFlight_def)
  have v: "vy (ballVelocity ?c) + GRAVITY \<le> 0"
    by (simp add: inFlight_def game_consts)
  have f: "vy (ballPosition ?c) + (vy (ballVelocity ?c) + GRAVITY) + BALL_RADIUS \<le> innerHeight court"
    by (simp add: inFlight_def court_def game_consts)
  have z: "score ?c = 0" by (simp add: inFlight_def initial_def)
  from score_requires_moving_down [OF s, of court] v f z show ?thesis by simp
qed

text \<open>
  A stored ball inside the band and between the rim's ends, flag set, moving up at 0.2:
  gravity turns it downward within the tick, before the score test, and the tick
  scores.
\<close>

theorem upward_ball_scores_counterexample:
  "wasAboveRim (inFlight court \<lparr>vx = 870, vy = 255\<rparr> \<lparr>vx = 0, vy = - 0.2\<rparr> True) \<and>
   vy (ballVelocity (inFlight court \<lparr>vx = 870, vy = 255\<rparr> \<lparr>vx = 0, vy = - 0.2\<rparr> True)) < 0 \<and>
   RIM_Y_POS < vy (ballPosition (inFlight court \<lparr>vx = 870, vy = 255\<rparr> \<lparr>vx = 0, vy = - 0.2\<rparr> True)) \<and>
   vy (ballPosition (inFlight court \<lparr>vx = 870, vy = 255\<rparr> \<lparr>vx = 0, vy = - 0.2\<rparr> True)) < RIM_Y_POS + 20 \<and>
   RIM_X_START court < vx (ballPosition (inFlight court \<lparr>vx = 870, vy = 255\<rparr> \<lparr>vx = 0, vy = - 0.2\<rparr> True)) \<and>
   vx (ballPosition (inFlight court \<lparr>vx = 870, vy = 255\<rparr> \<lparr>vx = 0, vy = - 0.2\<rparr> True)) < RIM_X_END court \<and>
   gameState (inFlight court \<lparr>vx = 870, vy = 255\<rparr> \<lparr>vx = 0, vy = - 0.2\<rparr> True) = Shooting \<and>
   gameState (updateGameState court
      (inFlight court \<lparr>vx = 870, vy = 255\<rparr> \<lparr>vx = 0, vy = - 0.2\<rparr> True)) = Scored"
  by (simp add: step_eval)

section \<open>The above-rim flag\<close>

text \<open>
  C4. A simulation step never clears \<open>wasAboveRim\<close>, and sets it whenever the
  position it has computed lies above the rim line (\<open>y < RIM_Y_POS\<close>). Of all the
  events the component handles, the only one that takes the flag from true to false is a
  fire request with a staged velocity: the start of a new shot.
\<close>

theorem wasAboveRim_monotone:
  "(wasAboveRim c \<longrightarrow> wasAboveRim (updateGameState w c)) \<and>
   (vy (pos (atScoreTest w c)) < RIM_Y_POS \<longrightarrow> wasAboveRim (updateGameState w c)) \<and>
   (wasAboveRim c \<and> handle w e c = Inr c' \<and> \<not> wasAboveRim c' \<longrightarrow>
      stagedVelocity c \<noteq> None \<and> c' = fireShot c \<and> gameState c' = Shooting \<and>
      shots c' = shots c + 1)"
proof -
  have "gameState (fireShot c) = Shooting \<and> shots (fireShot c) = shots c + 1"
    if "stagedVelocity c \<noteq> None"
    using that
    by (auto simp add: fireShot_def startGameLoop_def requestAnimationFrame_def
        cancelAnimationFrame_def split: option.splits)
  then show ?thesis
    using handle_wasAboveRim [of w e c c']
    by (auto simp add: updateGameState_wasAboveRim)
qed

theorem wasAboveRim_monotone_witness:
  "wasAboveRim (updateGameState court
      (inFlight court \<lparr>vx = 500, vy = 600\<rparr> \<lparr>vx = 2, vy = 3\<rparr> True)) \<and>
   vy (pos (atScoreTest court
      (inFlight court \<lparr>vx = 500, vy = 240\<rparr> \<lparr>vx = 2, vy = 3\<rparr> False))) < RIM_Y_POS \<and>
   wasAboveRim (updateGameState court
      (inFlight court \<lparr>vx = 500, vy = 240\<rparr> \<lparr>vx = 2, vy = 3\<rparr> False)) \<and>
   \<not> wasAboveRim (fireShot
      ((inFlight court \<lparr>vx = 500, vy = 600\<rparr> \<lparr>vx = 2, vy = 3\<rparr> True)
         \<lparr>gameState := Ready, stagedVelocity := Some \<lparr>vx = 9, vy = - 12\<rparr>\<rparr>)) \<and>
   gameState (fireShot
      ((inFlight court \<lparr>vx = 500, vy = 600\<rparr> \<lparr>vx = 2, vy = 3\<rparr> True)
         \<lparr>gameState := Ready, stagedVelocity := Some \<lparr>vx = 9, vy = - 12\<rparr>\<rparr>)) = Shooting"
proof -
  let ?a = "inFlight court \<lparr>vx = 500, vy = 600\<rparr> \<lparr>vx = 2, vy = 3\<rparr> True"
  let ?b = "inFlight court \<lparr>vx = 500, vy = 240\<rparr> \<lparr>vx = 2, vy = 3\<rparr> False"
  let ?r = "?a\<lparr>gameState := Ready, stagedVelocity := Some \<lparr>vx = 9, vy = - 12\<rparr>\<rparr>"
  have a: "wasAboveRim ?a" by (simp add: inFlight_def)
  have b: "vy (pos (atScoreTest court ?b)) < RIM_Y_POS"
    by (simp add: atScoreTest_def integrate_def floorBounce_def wallBounce_def inFlight_def
        court_def initial_def game_consts Let_def)
  have r: "wasAboveRim ?r" "handle court FireShot ?r = Inr (fireShot ?r)"
    by (simp_all add: inFlight_def handle_def)
  have n: "\<not> wasAboveRim (fireShot ?r)"
    by (simp add: fireShot_def startGameLoop_def requestAnimationFrame_def
        cancelAnimationFrame_def inFlight_def initial_def)
  from a wasAboveRim_monotone [of ?a court] have 1: "wasAboveRim (updateGameState court ?a)"
    by blast
  from b wasAboveRim_monotone [of ?b court] have 2: "wasAboveRim (updateGameState court ?b)"
    by blast
  from r n wasAboveRim_monotone [of ?r court FireShot "fireShot ?r"]
  have 3: "gameState (fireShot ?r) = Shooting" by blast
  from 1 2 3 b n show ?thesis by simp
qed

section \<open>Staging a shot\<close>

text \<open>
  C5. For a drag from \<open>a\<close> to \<open>b \<noteq> a\<close>, of length \<open>d\<close>, drag-end stages
  \<open>(dx, dy)\<close> scaled by the positive factor \<open>k = min d MAX_AIM_POWER / d\<close> (so its
  direction is kept and its length becomes \<open>min d MAX_AIM_POWER\<close>) and multiplied by
  \<open>AIM_POWER_FACTOR\<close>; the staged speed is \<open>min d MAX_AIM_POWER * AIM_POWER_FACTOR\<close>,
  which is \<open>MAX_AIM_POWER * AIM_POWER_FACTOR\<close> for every \<open>d\<close> from
  \<open>MAX_AIM_POWER\<close> on (a drag of 1000 among them).
\<close>

theorem aim_power_clamp:
  assumes "aimStartPos c = Some a" and "aimCurrentPos c = Some b" and "a \<noteq> b"
  shows "let dx = vx b - vx a; dy = vy b - vy a; d = hypot dx dy;
             k = min d MAX_AIM_POWER / d
         in 0 < k \<and>
            onAimEnd c =
              Inr (c\<lparr>stagedVelocity := Some \<lparr>vx = dx * k * AIM_POWER_FACTOR,
                                             vy = dy * k * AIM_POWER_FACTOR\<rparr>,
                     gameState := Ready\<rparr>) \<and>
            hypot (dx * k) (dy * k) = min d MAX_AIM_POWER \<and>
            hypot (dx * k * AIM_POWER_FACTOR) (dy * k * AIM_POWER_FACTOR) =
              min d MAX_AIM_POWER * AIM_POWER_FACTOR \<and>
            (MAX_AIM_POWER \<le> d \<longrightarrow>
               hypot (dx * k * AIM_POWER_FACTOR) (dy * k * AIM_POWER_FACTOR) =
                 MAX_AIM_POWER * AIM_POWER_FACTOR)"
proof -
  define dx where "dx = vx b - vx a"
  define dy where "dy = vy b - vy a"
  define d where "d = hypot dx dy"
  define k where "k = min d MAX_AIM_POWER / d"
  from assms(3) have "dx \<noteq> 0 \<or> dy \<noteq> 0"
    by (auto simp add: dx_def dy_def intro: vec.equality)
  then have dpos: "0 < d" unfolding d_def by (rule hypot_pos)
  have mpos: "0 < MAX_AIM_POWER" by (simp add: MAX_AIM_POWER_def)
  have fpos: "0 \<le> AIM_POWER_FACTOR" by (simp add: AIM_POWER_FACTOR_def)
  from dpos mpos have kpos: "0 < k" by (simp add: k_def)
  have kd: "d * k = min d MAX_AIM_POWER"
    using dpos by (simp add: k_def)
  have sq: "sqrt (dx * dx + dy * dy) = d"
    by (simp add: d_def hypot_def)
  have small: "k = 1" if "\<not> d > MAX_AIM_POWER"
    using that dpos by (simp add: k_def)
  have big: "k = MAX_AIM_POWER / d" if "d > MAX_AIM_POWER"
    using that by (simp add: k_def)
  have staged: "onAimEnd c =
      Inr (c\<lparr>stagedVelocity := Some \<lparr>vx = dx * k * AIM_POWER_FACTOR,
                                     vy = dy * k * AIM_POWER_FACTOR\<rparr>,
             gameState := Ready\<rparr>)"
  proof (cases "d > MAX_AIM_POWER")
    case True
    with dpos show ?thesis
      unfolding onAimEnd_def assms(1,2) option.case Let_def dx_def [symmetric]
        dy_def [symmetric] sq big [OF True]
      by simp
  next
    case False
    with dpos show ?thesis
      unfolding onAimEnd_def assms(1,2) option.case Let_def dx_def [symmetric]
        dy_def [symmetric] sq small [OF False]
      by simp
  qed
  have len: "hypot (dx * k) (dy * k) = min d MAX_AIM_POWER"
    using kpos kd by (simp add: hypot_scale d_def)
  have speed: "hypot (dx * k * AIM_POWER_FACTOR) (dy * k * AIM_POWER_FACTOR) =
      min d MAX_AIM_POWER * AIM_POWER_FACTOR"
    using fpos len by (simp add: hypot_scale)
  from kpos staged len speed show ?thesis
    unfolding Let_def dx_def [symmetric] dy_def [symmetric] d_def [symmetric] k_def [symmetric]
    by simp
qed

theorem aim_power_clamp_witness:
  "onAimEnd ((initial court)\<lparr>gameState := Aiming, aimStartPos := Some \<lparr>vx = 100, vy = 100\<rparr>,
                              aimCurrentPos := Some \<lparr>vx = 700, vy = 900\<rparr>\<rparr>) =
     Inr ((initial court)\<lparr>gameState := Aiming, aimStartPos := Some \<lparr>vx = 100, vy = 100\<rparr>,
                           aimCurrentPos := Some \<lparr>vx = 700, vy = 900\<rparr>,
                           stagedVelocity := Some \<lparr>vx = 10.8, vy = 14.4\<rparr>,
                           gameState := Ready\<rparr>) \<and>
   hypot 600 800 = 1000 \<and>
   hypot 10.8 14.4 = MAX_AIM_POWER * AIM_POWER_FACTOR"
proof -
  let ?c = "(initial court)\<lparr>gameState := Aiming, aimStartPos := Some \<lparr>vx = 100, vy = 100\<rparr>,
                              aimCurrentPos := Some \<lparr>vx = 700, vy = 900\<rparr>\<rparr>"
  have h: "hypot 600 800 = 1000"
    by (simp add: hypot_def)
  have s: "aimStartPos ?c = Some \<lparr>vx = 100, vy = 100\<rparr>"
    "aimCurrentPos ?c = Some \<lparr>vx = 700, vy = 900\<rparr>"
    "\<lparr>vx = 100, vy = 100\<rparr> \<noteq> \<lparr>vx = 700, vy = (900::real)\<rparr>"
    by simp_all
  from aim_power_clamp [OF s] h show ?thesis
    by (simp add: Let_def game_consts)
qed

text \<open>
  C6. In a reachable state the player is aiming in, a release on the very point of the
  press leads to \<^verbatim>\<open>ready\<close> with nothing staged, and there a fire request, by
  \<^verbatim>\<open>fireShot\<close> or by the fire key, changes nothing at all.
\<close>

theorem zero_drag_release:
  assumes "reachable c" and "gameState c = Aiming" and "aimStartPos c = aimCurrentPos c"
  shows "onPointerUp c = Inr (c\<lparr>gameState := Ready\<rparr>) \<and>
         stagedVelocity (c\<lparr>gameState := Ready\<rparr>) = None \<and>
         fireShot (c\<lparr>gameState := Ready\<rparr>) = c\<lparr>gameState := Ready\<rparr> \<and>
         onKeyDown w FireKey (c\<lparr>gameState := Ready\<rparr>) = c\<lparr>gameState := Ready\<rparr>"
proof -
  from assms(1) have "aiming_ok c" by (rule reachable_aiming_ok)
  with assms(2,3) obtain p where
    s: "stagedVelocity c = None" "aimStartPos c = Some p" "aimCurrentPos c = Some p"
    by (auto simp add: aiming_ok_def)
  have "onAimEnd c = Inr (c\<lparr>gameState := Ready\<rparr>)"
    by (simp add: onAimEnd_def s)
  with assms(2) have 1: "onPointerUp c = Inr (c\<lparr>gameState := Ready\<rparr>)"
    by (simp add: onPointerUp_def)
  have 2: "stagedVelocity (c\<lparr>gameState := Ready\<rparr>) = None"
    using s by simp
  then have 3: "fireShot (c\<lparr>gameState := Ready\<rparr>) = c\<lparr>gameState := Ready\<rparr>"
    by (rule fireShot_nothing_staged)
  then have 4: "onKeyDown w FireKey (c\<lparr>gameState := Ready\<rparr>) = c\<lparr>gameState := Ready\<rparr>"
    by (simp add: onKeyDown_def)
  from 1 2 3 4 show ?thesis by simp
qed

text \<open>
  The release of a press made after a basket, once its animation timers have run and
  its commentary has arrived: score and shot counters stay at 1, the ball stays where
  the reset put it.
\<close>

theorem zero_drag_release_witness:
  "score pressed_after_basket = 1 \<and> \<not> animateScore pressed_after_basket \<and>
   \<not> animateNet pressed_after_basket \<and>
   onPointerUp pressed_after_basket = Inr (pressed_after_basket\<lparr>gameState := Ready\<rparr>) \<and>
   stagedVelocity (pressed_after_basket\<lparr>gameState := Ready\<rparr>) = None \<and>
   fireShot (pressed_after_basket\<lparr>gameState := Ready\<rparr>) =
     pressed_after_basket\<lparr>gameState := Ready\<rparr> \<and>
   onKeyDown hoop_view FireKey (pressed_after_basket\<lparr>gameState := Ready\<rparr>) =
     pressed_after_basket\<lparr>gameState := Ready\<rparr> \<and>
   shots (pressed_after_basket\<lparr>gameState := Ready\<rparr>) = 1 \<and>
   ballPosition (pressed_after_basket\<lparr>gameState := Ready\<rparr>) = \<lparr>vx = 150, vy = 249\<rparr>"
proof -
  have g: "gameState pressed_after_basket = Aiming"
    "aimStartPos pressed_after_basket = aimCurrentPos pressed_after_basket"
    by (simp_all add: pressed_after_basket_def)
  have z: "score pressed_after_basket = 1" "\<not> animateScore pressed_after_basket"
    "\<not> animateNet pressed_after_basket"
    "shots (pressed_after_basket\<lparr>gameState := Ready\<rparr>) = 1"
    "ballPosition (pressed_after_basket\<lparr>gameState := Ready\<rparr>) = \<lparr>vx = 150, vy = 249\<rparr>"
    by (simp_all add: pressed_after_basket_def initial_def hoop_view_def)
  from zero_drag_release [OF reachable_pressed_after_basket g, of hoop_view] z
  show ?thesis by simp
qed

section \<open>Firing\<close>

text \<open>
  C7. In a reachable state with a staged velocity \<open>v\<close>, \<^verbatim>\<open>fireShot\<close> clears
  \<open>wasAboveRim\<close>, adds one to the shot counter, moves \<open>v\<close> into the ball's velocity,
  clears the staged velocity and the drag, enters \<^verbatim>\<open>shooting\<close>, and leaves exactly
  one animation frame pending: the new one, requested on a queue from which every
  frame scheduled before has been cancelled.
\<close>

theorem fire_starts_shot:
  assumes "reachable c" and "stagedVelocity c = Some v"
  shows "\<not> wasAboveRim (fireShot c) \<and> shots (fireShot c) = shots c + 1 \<and>
         ballVelocity (fireShot c) = v \<and> stagedVelocity (fireShot c) = None \<and>
         gameState (fireShot c) = Shooting \<and>
         aimStartPos (fireShot c) = None \<and> aimCurrentPos (fireShot c) = None \<and>
         score (fireShot c) = score c \<and> ballPosition (fireShot c) = ballPosition c \<and>
         (\<exists>c2. fireShot c = requestAnimationFrame c2 \<and> rafPending c2 = {}) \<and>
         Suc (rafNext c) \<notin> rafPending c \<and>
         rafPending (fireShot c) = {Suc (rafNext c)} \<and>
         animationFrameId (fireShot c) = Some (Suc (rafNext c))"
proof -
  let ?c1 = "c\<lparr>shots := shots c + 1, ballVelocity := v, stagedVelocity := None,
               gameState := Shooting, aimStartPos := None, aimCurrentPos := None,
               wasAboveRim := False\<rparr>"
  let ?c2 = "case animationFrameId ?c1 of None \<Rightarrow> ?c1
           | Some i \<Rightarrow> if i \<noteq> 0 then cancelAnimationFrame i ?c1 else ?c1"
  from assms(1) have f: "frames_ok c" by (rule reachable_frames_ok)
  then have "frames_ok ?c1" by (simp add: frames_ok_def)
  then have p: "rafPending ?c2 = {}" by (rule frames_ok_cancel)
  have e: "fireShot c = requestAnimationFrame ?c2"
    by (simp only: fireShot_def startGameLoop_def assms(2) option.case)
  have rest: "wasAboveRim ?c2 = False" "shots ?c2 = shots c + 1" "ballVelocity ?c2 = v"
    "stagedVelocity ?c2 = None" "gameState ?c2 = Shooting" "aimStartPos ?c2 = None"
    "aimCurrentPos ?c2 = None" "score ?c2 = score c" "ballPosition ?c2 = ballPosition c"
    "rafNext ?c2 = rafNext c"
    by (simp_all add: cancelAnimationFrame_def split: option.splits)
  have fresh: "Suc (rafNext c) \<notin> rafPending c"
    using f by (auto simp add: frames_ok_def)
  from e p have before: "\<exists>c2. fireShot c = requestAnimationFrame c2 \<and> rafPending c2 = {}"
    by blast
  have after: "\<not> wasAboveRim (fireShot c) \<and> shots (fireShot c) = shots c + 1 \<and>
         ballVelocity (fireShot c) = v \<and> stagedVelocity (fireShot c) = None \<and>
         gameState (fireShot c) = Shooting \<and>
         aimStartPos (fireShot c) = None \<and> aimCurrentPos (fireShot c) = None \<and>
         score (fireShot c) = score c \<and> ballPosition (fireShot c) = ballPosition c \<and>
         rafPending (fireShot c) = {Suc (rafNext c)} \<and>
         animationFrameId (fireShot c) = Some (Suc (rafNext c))"
    unfolding e using p rest by (simp add: requestAnimationFrame_def)
  from before after fresh show ?thesis by simp
qed

text \<open>
  Firing from \<open>reaimed_in_flight\<close>: frame 4 of the shot before is pending and
  \<open>wasAboveRim\<close> is set; afterwards the flag is clear, frame 4 is gone and frame 5
  alone is pending.
\<close>

theorem fire_starts_shot_witness:
  "stagedVelocity reaimed_in_flight = Some \<lparr>vx = 0, vy = 0.3\<rparr> \<and>
   wasAboveRim reaimed_in_flight \<and> rafPending reaimed_in_flight = {4} \<and>
   animationFrameId reaimed_in_flight = Some 4 \<and> shots reaimed_in_flight = 2 \<and>
   \<not> wasAboveRim (fireShot reaimed_in_flight) \<and> shots (fireShot reaimed_in_flight) = 3 \<and>
   ballVelocity (fireShot reaimed_in_flight) = \<lparr>vx = 0, vy = 0.3\<rparr> \<and>
   stagedVelocity (fireShot reaimed_in_flight) = None \<and>
   gameState (fireShot reaimed_in_flight) = Shooting \<and>
   4 \<notin> rafPending (fireShot reaimed_in_flight) \<and>
   rafPending (fireShot reaimed_in_flight) = {5} \<and>
   animationFrameId (fireShot reaimed_in_flight) = Some 5"
proof -
  have s: "stagedVelocity reaimed_in_flight = Some \<lparr>vx = 0, vy = 0.3\<rparr>"
    by (simp add: reaimed_in_flight_def)
  have z: "wasAboveRim reaimed_in_flight" "rafPending reaimed_in_flight = {4}"
    "animationFrameId reaimed_in_flight = Some 4" "shots reaimed_in_flight = 2"
    "rafNext reaimed_in_flight = 4"
    by (simp_all add: reaimed_in_flight_def)
  from fire_starts_shot [OF reachable_reaimed_in_flight s] s z show ?thesis by simp
qed

section \<open>Commentary\<close>

text \<open>
  C8. When the service call rejects, whatever the error, the rest of
  \<^verbatim>\<open>fetchGeminiReaction\<close> shows the fixed fallback message and fulfils (it never
  rejects); and however the call settles, the loading flag is false afterwards.
\<close>

theorem commentary_failure_fallback:
  "fetchGeminiReaction_settle (Inl e) c =
     Inr (c\<lparr>geminiMessage := ''Oops, Gemini is taking a timeout.'',
            isLoadingGemini := False\<rparr>) \<and>
   (\<exists>c'. fetchGeminiReaction_settle r c = Inr c' \<and> \<not> isLoadingGemini c') \<and>
   (getShotReaction svc didScore response = Inl e \<longrightarrow>
      (\<exists>c'. fetchGeminiReaction svc response didScore c = Inr c' \<and>
            geminiMessage c' = ''Oops, Gemini is taking a timeout.'' \<and>
            \<not> isLoadingGemini c')) \<and>
   (\<exists>c'. fetchGeminiReaction svc response didScore c = Inr c' \<and> \<not> isLoadingGemini c')"
proof -
  have 1: "fetchGeminiReaction_settle (Inl e) c =
     Inr (c\<lparr>geminiMessage := ''Oops, Gemini is taking a timeout.'',
            isLoadingGemini := False\<rparr>)"
    by (simp add: fetchGeminiReaction_settle_def)
  have 2: "\<exists>c'. fetchGeminiReaction_settle r c = Inr c' \<and> \<not> isLoadingGemini c'"
    by (cases r) (simp_all add: fetchGeminiReaction_settle_def)
  have 3: "\<exists>c'. fetchGeminiReaction svc response didScore c = Inr c' \<and>
            geminiMessage c' = ''Oops, Gemini is taking a timeout.'' \<and>
            \<not> isLoadingGemini c'"
    if "getShotReaction svc didScore response = Inl e"
    using that by (simp add: fetchGeminiReaction_def fetchGeminiReaction_settle_def)
  have 4: "\<exists>c'. fetchGeminiReaction svc response didScore c = Inr c' \<and> \<not> isLoadingGemini c'"
    by (cases "getShotReaction svc didScore response")
       (simp_all add: fetchGeminiReaction_def fetchGeminiReaction_settle_def)
  from 1 2 3 4 show ?thesis by blast
qed

theorem commentary_failure_fallback_witness:
  "getShotReaction \<lparr>apiKeyConfigured = True\<rparr> False (Inl TypeError) =
     Inl (Error ''Failed to get a reaction from Gemini.'') \<and>
   (\<exists>c'. fetchGeminiReaction \<lparr>apiKeyConfigured = True\<rparr> (Inl TypeError) False
            (handleMiss (initial court)) = Inr c' \<and>
         geminiMessage c' = ''Oops, Gemini is taking a timeout.'' \<and> \<not> isLoadingGemini c')"
proof -
  have g: "getShotReaction \<lparr>apiKeyConfigured = True\<rparr> False (Inl TypeError) =
     Inl (Error ''Failed to get a reaction from Gemini.'')"
    by (simp add: getShotReaction_def)
  from g commentary_failure_fallback
    [of "Error ''Failed to get a reaction from Gemini.''" "handleMiss (initial court)"
      "Inl TypeError" "\<lparr>apiKeyConfigured = True\<rparr>" False "Inl TypeError"]
  show ?thesis by blast
qed

section \<open>The miss test and what a tick commits\<close>

text \<open>
  C9. A tick taken in state \<^verbatim>\<open>shooting\<close> that does not score ends in
  \<^verbatim>\<open>missed\<close> exactly when, after the integration and all four bounces, the ball is
  more than 100 below the court, or both velocity components are below 0.1 in magnitude
  with \<open>y > courtHeight - BALL_RADIUS - 1\<close>; otherwise the state stays
  \<^verbatim>\<open>shooting\<close>.
\<close>

theorem miss_test:
  assumes "gameState c = Shooting" and "gameState (updateGameState w c) \<noteq> Scored"
  shows "let b' = afterBounces w c;
             miss = (vy (pos b') > innerHeight w + 100 \<or>
                     (\<bar>vx (vel b')\<bar> < 0.1 \<and> \<bar>vy (vel b')\<bar> < 0.1 \<and>
                      vy (pos b') > innerHeight w - BALL_RADIUS - 1))
         in (gameState (updateGameState w c) = Missed \<longleftrightarrow> miss) \<and>
            (gameState (updateGameState w c) = Shooting \<longleftrightarrow> \<not> miss)"
  using assms
  by (auto simp add: updateGameState_def Let_def handler_defs split: if_splits)

theorem miss_test_witness:
  "gameState (updateGameState court
      (inFlight court \<lparr>vx = 500, vy = 780\<rparr> \<lparr>vx = 0, vy = - 0.28\<rparr> False)) = Missed \<and>
   afterBounces court (inFlight court \<lparr>vx = 500, vy = 780\<rparr> \<lparr>vx = 0, vy = - 0.28\<rparr> False) =
     \<lparr>pos = \<lparr>vx = 500, vy = 780\<rparr>, vel = \<lparr>vx = 0, vy = - 0.084\<rparr>\<rparr> \<and>
   gameState (updateGameState court
      (inFlight court \<lparr>vx = 500, vy = 780\<rparr> \<lparr>vx = 0, vy = 0\<rparr> False)) = Shooting \<and>
   afterBounces court (inFlight court \<lparr>vx = 500, vy = 780\<rparr> \<lparr>vx = 0, vy = 0\<rparr> False) =
     \<lparr>pos = \<lparr>vx = 500, vy = 780\<rparr>, vel = \<lparr>vx = 0, vy = - 0.28\<rparr>\<rparr>"
proof -
  let ?a = "inFlight court \<lparr>vx = 500, vy = 780\<rparr> \<lparr>vx = 0, vy = - 0.28\<rparr> False"
  let ?b = "inFlight court \<lparr>vx = 500, vy = 780\<rparr> \<lparr>vx = 0, vy = 0\<rparr> False"
  have a: "afterBounces court ?a = \<lparr>pos = \<lparr>vx = 500, vy = 780\<rparr>, vel = \<lparr>vx = 0, vy = - 0.084\<rparr>\<rparr>"
    by (simp add: step_eval)
  have b: "afterBounces court ?b = \<lparr>pos = \<lparr>vx = 500, vy = 780\<rparr>, vel = \<lparr>vx = 0, vy = - 0.28\<rparr>\<rparr>"
    by (simp add: step_eval)
  have sa: "gameState ?a = Shooting" and sb: "gameState ?b = Shooting"
    by (simp_all add: inFlight_def)
  have na: "gameState (updateGameState court ?a) \<noteq> Scored"
    by (simp add: step_eval)
  have nb: "gameState (updateGameState court ?b) \<noteq> Scored"
    by (simp add: step_eval)
  from miss_test [OF sa na] a have 1: "gameState (updateGameState court ?a) = Missed"
    by (simp add: Let_def court_def game_consts)
  from miss_test [OF sb nb] b have 2: "gameState (updateGameState court ?b) = Shooting"
    by (simp add: Let_def court_def game_consts)
  from 1 2 a b show ?thesis by simp
qed

text \<open>
  C10. A tick taken in state \<^verbatim>\<open>shooting\<close> that ends in \<^verbatim>\<open>scored\<close> or
  \<^verbatim>\<open>missed\<close> leaves the stored position and velocity as they were; the integrated
  and bounced pair is stored only by a tick that stays in \<^verbatim>\<open>shooting\<close>.
\<close>

theorem terminal_tick_keeps_ball:
  assumes "gameState c = Shooting"
  shows "(gameState (updateGameState w c) = Scored \<or> gameState (updateGameState w c) = Missed \<longrightarrow>
            ballPosition (updateGameState w c) = ballPosition c \<and>
            ballVelocity (updateGameState w c) = ballVelocity c) \<and>
         (gameState (updateGameState w c) \<noteq> Scored \<and> gameState (updateGameState w c) \<noteq> Missed \<longrightarrow>
            gameState (updateGameState w c) = Shooting \<and>
            ballPosition (updateGameState w c) = pos (afterBounces w c) \<and>
            ballVelocity (updateGameState w c) = vel (afterBounces w c))"
  using assms
  by (simp add: updateGameState_def Let_def handler_defs)

theorem terminal_tick_keeps_ball_witness:
  "gameState (updateGameState court
      (inFlight court \<lparr>vx = 870, vy = 255\<rparr> \<lparr>vx = 0, vy = 0.6\<rparr> True)) = Scored \<and>
   ballPosition (updateGameState court
      (inFlight court \<lparr>vx = 870, vy = 255\<rparr> \<lparr>vx = 0, vy = 0.6\<rparr> True)) = \<lparr>vx = 870, vy = 255\<rparr> \<and>
   ballVelocity (updateGameState court
      (inFlight court \<lparr>vx = 870, vy = 255\<rparr> \<lparr>vx = 0, vy = 0.6\<rparr> True)) = \<lparr>vx = 0, vy = 0.6\<rparr> \<and>
   gameState (updateGameState court
      (inFlight court \<lparr>vx = 500, vy = 600\<rparr> \<lparr>vx = 2, vy = 3\<rparr> False)) = Shooting \<and>
   ballPosition (updateGameState court
      (inFlight court \<lparr>vx = 500, vy = 600\<rparr> \<lparr>vx = 2, vy = 3\<rparr> False)) = \<lparr>vx = 502, vy = 603.4\<rparr> \<and>
   ballVelocity (updateGameState court
      (inFlight court \<lparr>vx = 500, vy = 600\<rparr> \<lparr>vx = 2, vy = 3\<rparr> False)) = \<lparr>vx = 2, vy = 3.4\<rparr>"
proof -
  let ?a = "inFlight court \<lparr>vx = 870, vy = 255\<rparr> \<lparr>vx = 0, vy = 0.6\<rparr> True"
  let ?b = "inFlight court \<lparr>vx = 500, vy = 600\<rparr> \<lparr>vx = 2, vy = 3\<rparr> False"
  have sa: "gameState ?a = Shooting" and sb: "gameState ?b = Shooting"
    by (simp_all add: inFlight_def)
  have a: "gameState (updateGameState court ?a) = Scored"
    by (simp add: step_eval)
  have b: "gameState (updateGameState court ?b) = Shooting"
    by (simp add: step_eval)
  have ab: "afterBounces court ?b = \<lparr>pos = \<lparr>vx = 502, vy = 603.4\<rparr>, vel = \<lparr>vx = 2, vy = 3.4\<rparr>\<rparr>"
    by (simp add: step_eval)
  have ia: "ballPosition ?a = \<lparr>vx = 870, vy = 255\<rparr>" "ballVelocity ?a = \<lparr>vx = 0, vy = 0.6\<rparr>"
    by (simp_all add: inFlight_def)
  from terminal_tick_keeps_ball [OF sa, of court] a ia
  have 1: "ballPosition (updateGameState court ?a) = \<lparr>vx = 870, vy = 255\<rparr> \<and>
           ballVelocity (updateGameState court ?a) = \<lparr>vx = 0, vy = 0.6\<rparr>"
    by simp
  from terminal_tick_keeps_ball [OF sb, of court] b ab
  have 2: "ballPosition (updateGameState court ?b) = \<lparr>vx = 502, vy = 603.4\<rparr> \<and>
           ballVelocity (updateGameState court ?b) = \<lparr>vx = 2, vy = 3.4\<rparr>"
    by simp
  from a b 1 2 show ?thesis by simp
qed

end
